theory Spec2Isabelle
  imports Complex_Main
begin

section \<open>The star stencil generator of igor.cpp\<close>

text \<open>
  The program turns a pad radius and a few physical parameters into the outline of a
  star: \<open>contour\<close> samples a piecewise linear profile into a ladder of (s, c) pairs,
  \<open>contourtoxy\<close> maps the ladder to Cartesian points and \<open>xy0toN\<close> replicates that
  sector by rotation and reflection.

  Conventions of the embedding.
  \<^item> A \<open>double\<close> is a \<open>real\<close>: all arithmetic is exact, there is no rounding, no
    infinity and no NaN. A division whose divisor is zero leaves this model (IEEE
    arithmetic yields an infinity or a NaN there), so every division of the source is a
    checked division that stops with \<open>DivisionByZero\<close>.
  \<^item> An \<open>int\<close> is a mathematical integer and a \<open>size_t\<close> is a natural number: loop
    counters, lengths and the conversion of the floored sample count to \<open>int\<close> are
    exact, without a machine range.
  \<^item> The assertions are active and \<open>get(C, I)\<close> is the bounds-checked \<open>C.at(I)\<close>
    (the build without \<open>NDEBUG\<close>); a failed assertion, an index out of range and a
    vector of negative size are error values.
  \<^item> The constant \<open>pi\<close> of the source is the decimal literal written there, named
    \<open>pi_c\<close> here to keep it apart from the mathematical constant.
\<close>

subsection \<open>Data and errors\<close>

type_synonym co_t = "real \<times> real"
type_synonym co_vec_t = "co_t list"

datatype error =
    AssertionFailed string
  | DivisionByZero
  | OutOfRange
  | LengthError

fun bindE :: "error + 'a \<Rightarrow> ('a \<Rightarrow> error + 'b) \<Rightarrow> error + 'b" where
  "bindE (Inl e) f = Inl e"
| "bindE (Inr x) f = f x"

definition divide_checked :: "real \<Rightarrow> real \<Rightarrow> error + real" where
  "divide_checked a b = (if b = 0 then Inl DivisionByZero else Inr (a / b))"

text \<open>\<open>C.at(I)\<close> read and write; the index is converted to \<open>size_t\<close>, so a negative
  one is out of range as well.\<close>

definition at_checked :: "'a list \<Rightarrow> int \<Rightarrow> error + 'a" where
  "at_checked xs i = (if 0 \<le> i \<and> i < int (length xs) then Inr (xs ! nat i) else Inl OutOfRange)"

definition at_update :: "'a list \<Rightarrow> int \<Rightarrow> ('a \<Rightarrow> 'a) \<Rightarrow> error + 'a list" where
  "at_update xs i f =
     (if 0 \<le> i \<and> i < int (length xs) then Inr (xs[nat i := f (xs ! nat i)]) else Inl OutOfRange)"

definition pi_c :: real where
  "pi_c = 31415926535897932384626 / 10 ^ 22"

subsection \<open>Point operations\<close>

definition sctoxy :: "real \<Rightarrow> real \<Rightarrow> real \<Rightarrow> error + co_t" where
  "sctoxy s c oo =
     bindE (divide_checked c s) (\<lambda>q. Inr (s * cos (q + oo), s * sin (q + oo)))"

definition rot3 :: "real \<Rightarrow> real \<Rightarrow> real \<Rightarrow> co_t" where
  "rot3 x y alpha = (x * cos alpha - y * sin alpha, x * sin alpha + y * cos alpha)"

definition rot :: "co_t \<Rightarrow> real \<Rightarrow> co_t" where
  "rot xy alpha = rot3 (fst xy) (snd xy) alpha"

definition mirr3 :: "real \<Rightarrow> real \<Rightarrow> real \<Rightarrow> co_t" where
  "mirr3 x y c =
     (let mx = cos c; my = sin c; sca = x * mx + y * my
      in (2 * sca * mx - x, 2 * sca * my - y))"

definition mirr :: "co_t \<Rightarrow> real \<Rightarrow> co_t" where
  "mirr xy c = mirr3 (fst xy) (snd xy) c"

subsection \<open>The profile: the lambdas of contour\<close>

definition s1 :: "real \<Rightarrow> real \<Rightarrow> real" where
  "s1 R h = R + h"

definition s2 :: "real \<Rightarrow> real \<Rightarrow> real \<Rightarrow> real \<Rightarrow> real" where
  "s2 R h rf hf = R * (1 + hf * rf) + h"


definition c1 :: "real \<Rightarrow> real" where
  "c1 s = 2 * pi_c * s"

definition c2 :: "real \<Rightarrow> real \<Rightarrow> real \<Rightarrow> real \<Rightarrow> real \<Rightarrow> error + real" where
  "c2 R h rf hf s =
     bindE (divide_checked (2 * pi_c * (h + R * hf * rf) * (s - s1 R h)) (R * hf * rf))
       (\<lambda>q. Inr (c1 (s1 R h) - q))"

definition c3 :: "real \<Rightarrow> real \<Rightarrow> real \<Rightarrow> real \<Rightarrow> real \<Rightarrow> error + real" where
  "c3 R h rf hf s =
     bindE (c2 R h rf hf (s2 R h rf hf)) (\<lambda>a. Inr (a - 2 * pi_c * (s - s2 R h rf hf)))"



subsection \<open>The sampler\<close>








text \<open>The seven assertions at the head of \<open>contour\<close>, as one predicate.\<close>

definition preconditions :: "real \<Rightarrow> real \<Rightarrow> real \<Rightarrow> real \<Rightarrow> int \<Rightarrow> bool" where
  "preconditions R h rf hf N \<longleftrightarrow>
     rf \<le> 1 \<and> hf \<le> 1 \<and> rf > 0 \<and> hf > 0 \<and> N > 0 \<and> R > 0 \<and> h \<ge> 0"

subsection \<open>The coordinate mapper\<close>

function contourtoxy_loop ::
  "co_vec_t \<Rightarrow> real \<Rightarrow> nat \<Rightarrow> nat \<Rightarrow> co_vec_t \<Rightarrow> error + co_vec_t" where
  "contourtoxy_loop sc0 fracN I i xy0 =
     (if i < I then
        bindE (at_checked sc0 (int i)) (\<lambda>p.
        bindE (sctoxy (fst p) (snd p * fracN) 0) (\<lambda>q.
        bindE (at_update xy0 (int i) (\<lambda>_. q)) (\<lambda>xy0'.
        contourtoxy_loop sc0 fracN I (i + 1) xy0')))
      else Inr xy0)"
  by pat_completeness auto
termination
  by (relation "measure (\<lambda>(sc0, fracN, I, i, xy0). I - i)") auto

declare contourtoxy_loop.simps [simp del]

definition contourtoxy :: "co_vec_t \<Rightarrow> int \<Rightarrow> error + co_vec_t" where
  "contourtoxy sc0 N =
     (let I = length sc0 in
      bindE (divide_checked 0.5 (real_of_int N)) (\<lambda>fracN.
      contourtoxy_loop sc0 fracN I 0 (replicate I (0, 0))))"

subsection \<open>The symmetry expander\<close>

text \<open>The two inner loops of \<open>xy0toN\<close> push onto the growing vector \<open>xy\<close>: the sector
  backwards, rotated, and the sector forwards, rotated and mirrored. Their counter is
  an \<open>int\<close>. The comparison of the counter \<open>n\<close>, a \<open>size_t\<close>, with the \<open>int\<close> \<open>N\<close> is
  read on the integers (the source converts a negative \<open>N\<close> to a large unsigned
  number; \<open>contour\<close> rejects \<open>N \<le> 0\<close> before the pipeline gets here).\<close>

function rev_loop :: "co_vec_t \<Rightarrow> real \<Rightarrow> int \<Rightarrow> co_vec_t \<Rightarrow> error + co_vec_t" where
  "rev_loop xy0 alpha i xy =
     (if i \<ge> 0 then
        bindE (at_checked xy0 i) (\<lambda>p. rev_loop xy0 alpha (i - 1) (xy @ [rot p alpha]))
      else Inr xy)"
  by pat_completeness auto
termination
  by (relation "measure (\<lambda>(xy0, alpha, i, xy). nat (i + 1))") auto

declare rev_loop.simps [simp del]

function fwd_loop ::
  "co_vec_t \<Rightarrow> real \<Rightarrow> real \<Rightarrow> nat \<Rightarrow> int \<Rightarrow> co_vec_t \<Rightarrow> error + co_vec_t" where
  "fwd_loop xy0 alpha c I i xy =
     (if i < int I then
        bindE (at_checked xy0 i) (\<lambda>p.
        fwd_loop xy0 alpha c I (i + 1) (xy @ [mirr (rot p alpha) c]))
      else Inr xy)"
  by pat_completeness auto
termination
  by (relation "measure (\<lambda>(xy0, alpha, c, I, i, xy). nat (int I - i))") auto

declare fwd_loop.simps [simp del]

function jag_loop ::
  "co_vec_t \<Rightarrow> real \<Rightarrow> nat \<Rightarrow> int \<Rightarrow> nat \<Rightarrow> co_vec_t \<Rightarrow> error + co_vec_t" where
  "jag_loop xy0 dalpha I N n xy =
     (if int n < N then
        bindE (rev_loop xy0 (real n * dalpha) (int I - 1) xy) (\<lambda>xy1.
        bindE (fwd_loop xy0 (real n * dalpha) ((real n + 0.5) * dalpha) I 0 xy1) (\<lambda>xy2.
        jag_loop xy0 dalpha I N (n + 1) xy2))
      else Inr xy)"
  by pat_completeness auto
termination
  by (relation "measure (\<lambda>(xy0, dalpha, I, N, n, xy). nat (N - int n))") auto

declare jag_loop.simps [simp del]

definition xy0toN :: "co_vec_t \<Rightarrow> int \<Rightarrow> error + co_vec_t" where
  "xy0toN xy0 N =
     (let I = length xy0; IN2 = 2 * N * int I in
      bindE (divide_checked (2 * pi_c) (real_of_int N)) (\<lambda>dalpha.
      bindE (jag_loop xy0 dalpha I N 0 []) (\<lambda>xy.
      if \<not> int (length xy) = IN2 then Inl (AssertionFailed ''xy.size() == IN2'')
      else Inr xy)))"

text \<open>The points that one pass of the outer loop appends, for stating what the
  loops compute.\<close>

abbreviation jag_block :: "co_vec_t \<Rightarrow> real \<Rightarrow> nat \<Rightarrow> co_vec_t" where
  "jag_block xy0 dalpha n \<equiv>
     map (\<lambda>p. rot p (real n * dalpha)) (rev xy0) @
     map (\<lambda>p. mirr (rot p (real n * dalpha)) ((real n + 0.5) * dalpha)) xy0"

section \<open>Properties\<close>

subsection \<open>The profile formulas\<close>


lemma precond_nz: "preconditions R h rf hf N \<Longrightarrow> R * hf * rf \<noteq> 0"
  by (simp add: preconditions_def)

lemma c2_value:
  "R * hf * rf \<noteq> 0 \<Longrightarrow>
   c2 R h rf hf s =
     Inr (c1 (s1 R h) - 2 * pi_c * (h + R * hf * rf) * (s - s1 R h) / (R * hf * rf))"
  by (simp add: c2_def divide_checked_def)

lemma c2_at_s2:
  assumes "R * hf * rf \<noteq> 0"
  shows "c2 R h rf hf (s2 R h rf hf) = Inr (2 * pi_c * R * (1 - hf * rf))"
proof -
  have d: "s2 R h rf hf - s1 R h = R * hf * rf"
    by (simp add: s1_def s2_def algebra_simps)
  have "2 * pi_c * (h + R * hf * rf) * (R * hf * rf) / (R * hf * rf)
      = 2 * pi_c * (h + R * hf * rf)"
    using assms by simp
  then have "c1 (s1 R h) - 2 * pi_c * (h + R * hf * rf) * (s2 R h rf hf - s1 R h) / (R * hf * rf)
      = 2 * pi_c * R * (1 - hf * rf)"
    unfolding d by (simp add: c1_def s1_def algebra_simps)
  then show ?thesis
    using c2_value [OF assms, of h "s2 R h rf hf"] by simp
qed

lemma c3_value:
  "R * hf * rf \<noteq> 0 \<Longrightarrow>
   c3 R h rf hf s = Inr (2 * pi_c * R * (1 - hf * rf) - 2 * pi_c * (s - s2 R h rf hf))"
  by (simp add: c3_def c2_at_s2)





text \<open>
  C4. Under the preconditions the three zone formulas agree at the breakpoints:
  the zone-2 formula at \<open>s1\<close> gives exactly \<open>c1(s1)\<close>, and the zone-2 and zone-3
  formulas give the same value at \<open>s2\<close> (both evaluate without a division by zero).
\<close>

theorem zone_formulas_continuous:
  assumes "preconditions R h rf hf N"
  shows "c2 R h rf hf (s1 R h) = Inr (c1 (s1 R h)) \<and>
         (\<exists>v. c2 R h rf hf (s2 R h rf hf) = Inr v \<and> c3 R h rf hf (s2 R h rf hf) = Inr v)"
proof -
  from assms have nz: "R * hf * rf \<noteq> 0" by (rule precond_nz)
  have "c2 R h rf hf (s1 R h) = Inr (c1 (s1 R h))"
    by (simp add: c2_value [OF nz])
  moreover have "c3 R h rf hf (s2 R h rf hf) = Inr (2 * pi_c * R * (1 - hf * rf))"
    by (simp add: c3_value [OF nz])
  ultimately show ?thesis
    using c2_at_s2 [OF nz, of h] by simp
qed

theorem zone_formulas_continuous_witness:
  "preconditions 10 1 (3/10) (4/10) 13 \<and>
   c2 10 1 (3/10) (4/10) (s1 10 1) = Inr (c1 (s1 10 1)) \<and>
   (\<exists>v. c2 10 1 (3/10) (4/10) (s2 10 1 (3/10) (4/10)) = Inr v \<and>
        c3 10 1 (3/10) (4/10) (s2 10 1 (3/10) (4/10)) = Inr v)"
proof -
  have p: "preconditions 10 1 (3/10) (4/10) 13"
    by (simp add: preconditions_def)
  show ?thesis
    using p zone_formulas_continuous [OF p] by simp
qed

subsection \<open>The ladder in closed form\<close>



lemma at_update_Inr:
  "0 \<le> i \<Longrightarrow> i < int (length xs) \<Longrightarrow> at_update xs i f = Inr (xs[nat i := f (xs ! nat i)])"
  by (simp add: at_update_def)






subsection \<open>The ladder size\<close>






subsection \<open>Rejected parameters\<close>




subsection \<open>The circumference does not increase beyond s1\<close>





subsection \<open>Monotonicity and sign of the ladder\<close>





subsection \<open>The coordinate mapper in closed form\<close>

lemma sctoxy_value:
  "s \<noteq> 0 \<Longrightarrow> sctoxy s c 0 = Inr (s * cos (c / s), s * sin (c / s))"
  by (simp add: sctoxy_def divide_checked_def)

lemma at_checked_Inr:
  "0 \<le> i \<Longrightarrow> i < int (length xs) \<Longrightarrow> at_checked xs i = Inr (xs ! nat i)"
  by (simp add: at_checked_def)

lemma contourtoxy_loop_result:
  assumes "\<forall>p\<in>set sc0. fst p \<noteq> 0" and "I = length sc0" and "length xy0 = I"
  shows "\<exists>r. contourtoxy_loop sc0 fracN I i xy0 = Inr r \<and> length r = I \<and>
           (\<forall>j<I. r ! j =
              (if i \<le> j
               then (fst (sc0 ! j) * cos (snd (sc0 ! j) * fracN / fst (sc0 ! j)),
                     fst (sc0 ! j) * sin (snd (sc0 ! j) * fracN / fst (sc0 ! j)))
               else xy0 ! j))"
  using assms
proof (induction sc0 fracN I i xy0 rule: contourtoxy_loop.induct)
  case (1 sc0 fracN I i xy0)
  show ?case
  proof (cases "i < I")
    case False
    then have "contourtoxy_loop sc0 fracN I i xy0 = Inr xy0"
      by (subst contourtoxy_loop.simps) simp
    then show ?thesis using False "1.prems" by auto
  next
    case True
    define q where "q = (fst (sc0 ! i) * cos (snd (sc0 ! i) * fracN / fst (sc0 ! i)),
                         fst (sc0 ! i) * sin (snd (sc0 ! i) * fracN / fst (sc0 ! i)))"
    define b where "b = xy0[i := q]"
    have nz: "fst (sc0 ! i) \<noteq> 0" using "1.prems" True by simp
    have step: "contourtoxy_loop sc0 fracN I i xy0 = contourtoxy_loop sc0 fracN I (i + 1) b"
      using True "1.prems"(2,3) nz
      by (subst contourtoxy_loop.simps)
         (simp add: at_checked_Inr at_update_Inr sctoxy_value q_def b_def)
    have lb: "length b = I" using "1.prems" by (simp add: b_def)
    from "1.IH" [OF True "1.prems"(1,2) lb]
    obtain r where r: "contourtoxy_loop sc0 fracN I (i + 1) b = Inr r" "length r = I"
      and ri: "\<And>j. j < I \<Longrightarrow> r ! j =
              (if i + 1 \<le> j
               then (fst (sc0 ! j) * cos (snd (sc0 ! j) * fracN / fst (sc0 ! j)),
                     fst (sc0 ! j) * sin (snd (sc0 ! j) * fracN / fst (sc0 ! j)))
               else b ! j)"
      by blast
    have "r ! j =
              (if i \<le> j
               then (fst (sc0 ! j) * cos (snd (sc0 ! j) * fracN / fst (sc0 ! j)),
                     fst (sc0 ! j) * sin (snd (sc0 ! j) * fracN / fst (sc0 ! j)))
               else xy0 ! j)" if "j < I" for j
    proof (cases "j = i")
      case True
      then show ?thesis using ri [OF that] "1.prems"(3) that by (simp add: b_def q_def)
    next
      case False
      then show ?thesis using ri [OF that] by (auto simp: b_def)
    qed
    then show ?thesis using step r by simp
  qed
qed

lemma contourtoxy_result:
  assumes "N \<noteq> 0" and "\<forall>p\<in>set sc0. fst p \<noteq> 0"
  shows "\<exists>xy0. contourtoxy sc0 N = Inr xy0 \<and> length xy0 = length sc0 \<and>
           (\<forall>i<length sc0. xy0 ! i =
              (fst (sc0 ! i) * cos (snd (sc0 ! i) * (0.5 / real_of_int N) / fst (sc0 ! i)),
               fst (sc0 ! i) * sin (snd (sc0 ! i) * (0.5 / real_of_int N) / fst (sc0 ! i))))"
proof -
  have "contourtoxy sc0 N =
      contourtoxy_loop sc0 (0.5 / real_of_int N) (length sc0) 0 (replicate (length sc0) (0, 0))"
    using assms(1) by (simp add: contourtoxy_def divide_checked_def Let_def)
  then show ?thesis
    using contourtoxy_loop_result [OF assms(2) refl, of "replicate (length sc0) (0, 0)"
        "0.5 / real_of_int N" 0]
    by simp
qed

text \<open>
  C7. For a ladder whose positions \<open>s\<close> are positive and \<open>N \<ge> 1\<close>, \<open>contourtoxy\<close>
  returns one point per sample, the point \<open>(s * cos (c / (2 * N) / s),
  s * sin (c / (2 * N) / s))\<close>, and its polar radius is the sample's \<open>s\<close>:
  \<open>x\<^sup>2 + y\<^sup>2 = s\<^sup>2\<close>.
\<close>

theorem polar_round_trip:
  assumes "1 \<le> N" and "\<forall>p\<in>set sc0. 0 < fst p"
  shows "\<exists>xy0. contourtoxy sc0 N = Inr xy0 \<and> length xy0 = length sc0 \<and>
           (\<forall>i<length sc0.
              fst (xy0 ! i) = fst (sc0 ! i) * cos (snd (sc0 ! i) / (2 * real_of_int N) / fst (sc0 ! i)) \<and>
              snd (xy0 ! i) = fst (sc0 ! i) * sin (snd (sc0 ! i) / (2 * real_of_int N) / fst (sc0 ! i)) \<and>
              (fst (xy0 ! i))\<^sup>2 + (snd (xy0 ! i))\<^sup>2 = (fst (sc0 ! i))\<^sup>2 \<and>
              sqrt ((fst (xy0 ! i))\<^sup>2 + (snd (xy0 ! i))\<^sup>2) = fst (sc0 ! i))"
proof -
  have N0: "N \<noteq> 0" using assms(1) by simp
  have nz: "\<forall>p\<in>set sc0. fst p \<noteq> 0" using assms(2) by fastforce
  obtain xy0 where res: "contourtoxy sc0 N = Inr xy0" "length xy0 = length sc0"
    and pt: "\<And>i. i < length sc0 \<Longrightarrow> xy0 ! i =
              (fst (sc0 ! i) * cos (snd (sc0 ! i) * (0.5 / real_of_int N) / fst (sc0 ! i)),
               fst (sc0 ! i) * sin (snd (sc0 ! i) * (0.5 / real_of_int N) / fst (sc0 ! i)))"
    using contourtoxy_result [OF N0 nz] by blast
  have "fst (xy0 ! i) = fst (sc0 ! i) * cos (snd (sc0 ! i) / (2 * real_of_int N) / fst (sc0 ! i)) \<and>
        snd (xy0 ! i) = fst (sc0 ! i) * sin (snd (sc0 ! i) / (2 * real_of_int N) / fst (sc0 ! i)) \<and>
        (fst (xy0 ! i))\<^sup>2 + (snd (xy0 ! i))\<^sup>2 = (fst (sc0 ! i))\<^sup>2 \<and>
        sqrt ((fst (xy0 ! i))\<^sup>2 + (snd (xy0 ! i))\<^sup>2) = fst (sc0 ! i)"
    if "i < length sc0" for i
  proof -
    define s where "s = fst (sc0 ! i)"
    define a where "a = snd (sc0 ! i) / (2 * real_of_int N) / s"
    have "snd (sc0 ! i) * (0.5 / real_of_int N) / s = a"
      by (simp add: a_def)
    then have xy: "xy0 ! i = (s * cos a, s * sin a)"
      using pt [OF that] by (simp add: s_def)
    have "(s * cos a)\<^sup>2 + (s * sin a)\<^sup>2 = s\<^sup>2 * ((cos a)\<^sup>2 + (sin a)\<^sup>2)"
      by (simp only: power_mult_distrib distrib_left)
    also have "\<dots> = s\<^sup>2"
      by (simp only: sin_cos_squared_add2 mult_1_right)
    finally have sq: "(s * cos a)\<^sup>2 + (s * sin a)\<^sup>2 = s\<^sup>2" .
    have "0 < s" using assms(2) that by (simp add: s_def)
    then have rt: "sqrt (s\<^sup>2) = s" by simp
    have "fst (xy0 ! i) = s * cos a \<and> snd (xy0 ! i) = s * sin a \<and>
          (fst (xy0 ! i))\<^sup>2 + (snd (xy0 ! i))\<^sup>2 = s\<^sup>2 \<and>
          sqrt ((fst (xy0 ! i))\<^sup>2 + (snd (xy0 ! i))\<^sup>2) = s"
      using sq rt by (simp add: xy)
    then show ?thesis
      unfolding a_def s_def .
  qed
  then show ?thesis using res by blast
qed

theorem polar_round_trip_witness:
  "(1::int) \<le> 13 \<and> 0 < fst ((11, 3) :: co_t) \<and>
   (\<exists>xy0. contourtoxy [(11, 3)] 13 = Inr xy0 \<and> length xy0 = 1 \<and>
      fst (xy0 ! 0) = 11 * cos (3 / (2 * real_of_int 13) / 11) \<and>
      (fst (xy0 ! 0))\<^sup>2 + (snd (xy0 ! 0))\<^sup>2 = 11\<^sup>2)"
proof -
  have k: "(1::int) \<le> 13" by simp
  have h: "\<forall>p\<in>set [(11, 3) :: co_t]. 0 < fst p" by simp
  show ?thesis
    using polar_round_trip [OF k h] by auto
qed

subsection \<open>The symmetry expander in closed form\<close>

lemma rev_loop_result:
  assumes "i < int (length xy0)"
  shows "rev_loop xy0 alpha i xy =
           Inr (xy @ map (\<lambda>p. rot p alpha) (rev (take (nat (i + 1)) xy0)))"
  using assms
proof (induction xy0 alpha i xy rule: rev_loop.induct)
  case (1 xy0 alpha i xy)
  show ?case
  proof (cases "0 \<le> i")
    case False
    then show ?thesis by (subst rev_loop.simps) simp
  next
    case True
    have n: "nat (i + 1) = Suc (nat i)" "nat (i - 1 + 1) = nat i" "nat i < length xy0"
      using True "1.prems" by linarith+
    have "rev_loop xy0 alpha i xy = rev_loop xy0 alpha (i - 1) (xy @ [rot (xy0 ! nat i) alpha])"
      using True "1.prems" by (subst rev_loop.simps) (simp add: at_checked_Inr)
    also have "\<dots> = Inr ((xy @ [rot (xy0 ! nat i) alpha]) @
                      map (\<lambda>p. rot p alpha) (rev (take (nat (i - 1 + 1)) xy0)))"
      using True "1.prems" by (intro "1.IH") simp_all
    finally show ?thesis
      using n by (simp add: take_Suc_conv_app_nth)
  qed
qed

lemma fwd_loop_result:
  assumes "0 \<le> i" and "I = length xy0"
  shows "fwd_loop xy0 alpha c I i xy =
           Inr (xy @ map (\<lambda>p. mirr (rot p alpha) c) (drop (nat i) xy0))"
  using assms
proof (induction xy0 alpha c I i xy rule: fwd_loop.induct)
  case (1 xy0 alpha c I i xy)
  show ?case
  proof (cases "i < int I")
    case False
    then have "length xy0 \<le> nat i" using "1.prems" by linarith
    then show ?thesis using False by (subst fwd_loop.simps) simp
  next
    case True
    have n: "nat (i + 1) = Suc (nat i)" "nat i < length xy0"
      using True "1.prems" by linarith+
    have "fwd_loop xy0 alpha c I i xy =
        fwd_loop xy0 alpha c I (i + 1) (xy @ [mirr (rot (xy0 ! nat i) alpha) c])"
      using True "1.prems" by (subst fwd_loop.simps) (simp add: at_checked_Inr)
    also have "\<dots> = Inr ((xy @ [mirr (rot (xy0 ! nat i) alpha) c]) @
                      map (\<lambda>p. mirr (rot p alpha) c) (drop (nat (i + 1)) xy0))"
      using True "1.prems" by (intro "1.IH") simp_all
    finally show ?thesis
      using n by (simp add: Cons_nth_drop_Suc [symmetric])
  qed
qed

lemma jag_loop_result:
  assumes "I = length xy0"
  shows "jag_loop xy0 dalpha I N n xy =
           Inr (xy @ concat (map (jag_block xy0 dalpha) [n..<nat N]))"
  using assms
proof (induction xy0 dalpha I N n xy rule: jag_loop.induct)
  case (1 xy0 dalpha I N n xy)
  show ?case
  proof (cases "int n < N")
    case False
    then have "nat N \<le> n" by linarith
    then show ?thesis using False by (subst jag_loop.simps) simp
  next
    case True
    then have n: "n < nat N" by linarith
    have r: "rev_loop xy0 (real n * dalpha) (int I - 1) xy =
               Inr (xy @ map (\<lambda>p. rot p (real n * dalpha)) (rev xy0))"
      using "1.prems" by (simp add: rev_loop_result)
    have f: "fwd_loop xy0 (real n * dalpha) c I 0 ys =
               Inr (ys @ map (\<lambda>p. mirr (rot p (real n * dalpha)) c) xy0)"
      for ys c
      using "1.prems" by (simp add: fwd_loop_result)
    have "jag_loop xy0 dalpha I N n xy =
        jag_loop xy0 dalpha I N (n + 1) (xy @ jag_block xy0 dalpha n)"
      using True by (subst jag_loop.simps) (simp add: r f)
    also have "\<dots> = Inr ((xy @ jag_block xy0 dalpha n) @
                      concat (map (jag_block xy0 dalpha) [n + 1..<nat N]))"
      using True "1.prems" by (intro "1.IH") simp_all
    finally show ?thesis
      using n by (simp add: upt_conv_Cons)
  qed
qed

lemma length_concat_blocks:
  "length (concat (map (jag_block xy0 d) ns)) = length ns * (2 * length xy0)"
  by (induction ns) simp_all

lemma nth_concat_uniform:
  assumes "\<forall>xs\<in>set xss. length xs = m" and "n < length xss" and "j < m"
  shows "concat xss ! (n * m + j) = xss ! n ! j"
  using assms
proof (induction xss arbitrary: n)
  case Nil
  then show ?case by simp
next
  case (Cons xs xss)
  have len: "length xs = m" using Cons.prems(1) by simp
  show ?case
  proof (cases n)
    case 0
    then show ?thesis using Cons.prems(3) len by (simp add: nth_append)
  next
    case (Suc k)
    have "concat (xs # xss) ! (n * m + j) = (xs @ concat xss) ! (length xs + (k * m + j))"
      using Suc len by (simp add: add.assoc)
    also have "\<dots> = concat xss ! (k * m + j)"
      by (rule nth_append_length_plus)
    also have "\<dots> = xss ! k ! j"
      using Cons.prems Suc by (intro Cons.IH) simp_all
    finally show ?thesis using Suc by simp
  qed
qed

lemma xy0toN_result:
  assumes "1 \<le> N"
  shows "xy0toN xy0 N =
           Inr (concat (map (jag_block xy0 (2 * pi_c / real_of_int N)) [0..<nat N]))"
proof -
  have "int (length (concat (map (jag_block xy0 (2 * pi_c / real_of_int N)) [0..<nat N])))
          = 2 * N * int (length xy0)"
    using assms by (simp only: length_concat_blocks) simp
  then show ?thesis
    using assms
    by (simp add: xy0toN_def Let_def divide_checked_def jag_loop_result del: length_concat)
qed


text \<open>
  C3. For a sector \<open>xy0\<close> of length \<open>I\<close> and \<open>N \<ge> 1\<close>, \<open>xy0toN\<close> returns a star with,
  for every \<open>n < N\<close> and \<open>j < I\<close>,
  \<open>star[2*n*I + j] = rot (xy0[I-1-j]) (n * dalpha)\<close> and
  \<open>star[2*n*I + I + j] = mirr (rot (xy0[j]) (n * dalpha)) ((n + 0.5) * dalpha)\<close>, where
  \<open>dalpha = 2 * pi / N\<close> with the program's constant \<open>pi\<close>, \<open>rot\<close> is the rotation about
  the origin and \<open>mirr p c = 2 * (p \<cdot> m) * m - p\<close> for \<open>m = (cos c, sin c)\<close>.
\<close>

theorem star_layout:
  assumes "1 \<le> N"
  shows "\<exists>star. xy0toN xy0 N = Inr star \<and>
           (\<forall>n j. n < nat N \<and> j < length xy0 \<longrightarrow>
              star ! (2 * n * length xy0 + j) =
                rot (xy0 ! (length xy0 - 1 - j)) (real n * (2 * pi_c / real_of_int N)) \<and>
              star ! (2 * n * length xy0 + length xy0 + j) =
                mirr (rot (xy0 ! j) (real n * (2 * pi_c / real_of_int N)))
                  ((real n + 0.5) * (2 * pi_c / real_of_int N))) \<and>
           (\<forall>x y a. rot (x, y) a = (x * cos a - y * sin a, x * sin a + y * cos a)) \<and>
           (\<forall>x y c. mirr (x, y) c =
              (2 * (x * cos c + y * sin c) * cos c - x, 2 * (x * cos c + y * sin c) * sin c - y))"
proof -
  define d where "d = 2 * pi_c / real_of_int N"
  define star where "star = concat (map (jag_block xy0 d) [0..<nat N])"
  have res: "xy0toN xy0 N = Inr star"
    unfolding star_def d_def using assms by (rule xy0toN_result)
  have blocks: "\<forall>xs\<in>set (map (jag_block xy0 d) [0..<nat N]). length xs = 2 * length xy0"
    by simp
  have at: "star ! (n * (2 * length xy0) + j) = jag_block xy0 d n ! j"
    if "n < nat N" "j < 2 * length xy0" for n j
    unfolding star_def using nth_concat_uniform [OF blocks _ that(2), of n] that(1) by simp
  have lay: "star ! (2 * n * length xy0 + j) = rot (xy0 ! (length xy0 - 1 - j)) (real n * d) \<and>
             star ! (2 * n * length xy0 + length xy0 + j) =
               mirr (rot (xy0 ! j) (real n * d)) ((real n + 0.5) * d)"
    if "n < nat N \<and> j < length xy0" for n j
  proof -
    have n: "n < nat N" and j: "j < length xy0" using that by simp_all
    have i1: "2 * n * length xy0 + j = n * (2 * length xy0) + j"
      and i2: "2 * n * length xy0 + length xy0 + j = n * (2 * length xy0) + (length xy0 + j)"
      by simp_all
    have "star ! (2 * n * length xy0 + j) = jag_block xy0 d n ! j"
      unfolding i1 using n j by (intro at) simp_all
    also have "\<dots> = map (\<lambda>p. rot p (real n * d)) (rev xy0) ! j"
      using j by (simp add: nth_append)
    also have "\<dots> = rot (xy0 ! (length xy0 - 1 - j)) (real n * d)"
      using j by (simp add: rev_nth)
    finally have a: "star ! (2 * n * length xy0 + j) =
        rot (xy0 ! (length xy0 - 1 - j)) (real n * d)" .
    have "star ! (2 * n * length xy0 + length xy0 + j) = jag_block xy0 d n ! (length xy0 + j)"
      unfolding i2 using n j by (intro at) simp_all
    also have "\<dots> = mirr (rot (xy0 ! j) (real n * d)) ((real n + 0.5) * d)"
      using j by (simp add: nth_append)
    finally show ?thesis using a by simp
  qed
  have r: "rot (x, y) a = (x * cos a - y * sin a, x * sin a + y * cos a)" for x y a
    by (simp add: rot_def rot3_def)
  have m: "mirr (x, y) c =
      (2 * (x * cos c + y * sin c) * cos c - x, 2 * (x * cos c + y * sin c) * sin c - y)"
    for x y c
    by (simp add: mirr_def mirr3_def Let_def)
  show ?thesis
    using res lay r m unfolding d_def by blast
qed

theorem star_layout_witness:
  "(1::int) \<le> 2 \<and>
   (\<exists>star. xy0toN [(1, 0), (2, 0)] 2 = Inr star \<and>
      star ! (2 * 1 * 2 + 0) = rot ((2, 0) :: co_t) (real 1 * (2 * pi_c / real_of_int 2)) \<and>
      star ! (2 * 1 * 2 + 2 + 1) =
        mirr (rot ((2, 0) :: co_t) (real 1 * (2 * pi_c / real_of_int 2)))
          ((real 1 + 0.5) * (2 * pi_c / real_of_int 2)))"
proof -
  have k: "(1::int) \<le> 2" by simp
  from star_layout [OF k, of "[(1, 0), (2, 0)]"]
  obtain star where s: "xy0toN [(1, 0), (2, 0)] 2 = Inr star"
    and l: "\<And>n j. n < nat 2 \<and> j < length [(1::real, 0::real), (2, 0)] \<Longrightarrow>
              star ! (2 * n * length [(1::real, 0::real), (2, 0)] + j) =
                rot ([(1, 0), (2, 0)] ! (length [(1::real, 0::real), (2, 0)] - 1 - j))
                  (real n * (2 * pi_c / real_of_int 2)) \<and>
              star ! (2 * n * length [(1::real, 0::real), (2, 0)]
                        + length [(1::real, 0::real), (2, 0)] + j) =
                mirr (rot ([(1, 0), (2, 0)] ! j) (real n * (2 * pi_c / real_of_int 2)))
                  ((real n + 0.5) * (2 * pi_c / real_of_int 2))"
    by blast
  show ?thesis
    using s l [of 1 0] l [of 1 1] by simp
qed

text \<open>
  C6. For a sector of length \<open>I\<close> and \<open>N \<ge> 1\<close>, \<open>xy0toN\<close> returns a star of length
  exactly \<open>2 * N * I\<close> (its final assertion on the size holds).
\<close>

theorem star_length:
  assumes "1 \<le> N"
  shows "\<exists>star. xy0toN xy0 N = Inr star \<and> length star = 2 * nat N * length xy0"
proof -
  have "length (concat (map (jag_block xy0 (2 * pi_c / real_of_int N)) [0..<nat N]))
          = 2 * nat N * length xy0"
    by (simp only: length_concat_blocks) simp
  then show ?thesis
    using xy0toN_result [OF assms, of xy0] by simp
qed

theorem star_length_witness:
  "(1::int) \<le> 13 \<and>
   (\<exists>star. xy0toN [(1, 0), (2, 0), (3, 1)] 13 = Inr star \<and> length star = 78)"
proof -
  have k: "(1::int) \<le> 13" by simp
  show ?thesis
    using k star_length [OF k, of "[(1, 0), (2, 0), (3, 1)]"] by simp
qed


subsection \<open>Divisions of the pipeline\<close>



end
